theory Spec2Isabelle
  imports Main "HOL-Library.AList" "HOL-Library.Sublist"
begin

section \<open>Data model\<close>

text \<open>
  A shallow embedding of \<^verbatim>\<open>lib/index.js\<close>: \<^verbatim>\<open>recursivelyPrepare\<close> and
  \<^verbatim>\<open>preparePullRequest\<close>.

  Paths are lists of path components. The workspace contents are a tree of directories;
  every directory has the names of its plain files and its named subdirectories.
  Symbolic links are not followed (\<^verbatim>\<open>followLinks: false\<close>), so they are no
  directories of the tree. JavaScript objects used as dictionaries are association lists
  (\<^verbatim>\<open>o[k] = v\<close> is \<open>AList.update\<close>): the keys are enumerated in the order of
  their insertion. (JavaScript enumerates keys that look like array indices first; that
  changes the order in which the entries of a \<^verbatim>\<open>contentIDMap\<close> are resolved, and
  nothing else.)
\<close>

type_synonym dirpath = "string list"

datatype fstree = Dir "string list" "(string \<times> fstree) list"

datatype error = Error string

text \<open>The \<^verbatim>\<open>opts\<close> object handed to the preparer; an unset property is \<open>None\<close>.\<close>

record opts =
  revisionID :: "string option"
  contentServiceURL :: "string option"
  contentServiceAPIKey :: "string option"
  contentRoot :: "dirpath option"

text \<open>The \<^verbatim>\<open>results\<close> object of one preparation.\<close>

record results =
  success :: bool
  didSomething :: bool
  contentIDBase :: "string option"

record mapping =
  path :: string

datatype level = Info | Err

text \<open>
  The calls made to the outside world, in the order they are made: the git subprocess,
  the staging content service, the preparer, the staging presenter and GitHub.
\<close>

datatype call =
    ExecGit
  | IssueAPIKey string
  | Prepare opts
  | RevokeAPIKey "string option"
  | Whereis "string option"
  | PostComment string string string

type_synonym contentIDMap = "(dirpath \<times> string option) list"
type_synonym presentedURLMap = "(dirpath \<times> string list) list"

text \<open>
  The toolbelt and the collaborators the module requires, as parameters: none of them is
  part of \<^verbatim>\<open>lib/index.js\<close>. \<open>fs\<close> is what the walker finds under
  \<^verbatim>\<open>toolbelt.workspacePath()\<close>; \<open>git\<close> is the outcome of
  \<^verbatim>\<open>git rev-parse --short=10 HEAD\<close> (an error or its stdout); \<open>prepare\<close> is
  \<^verbatim>\<open>prepare.prepare\<close>, which gets the \<^verbatim>\<open>opts\<close> object with
  \<^verbatim>\<open>contentRoot\<close> set; an absent \<open>stagingPresenter\<close> or \<open>github\<close> is
  \<open>None\<close>.
\<close>

record toolbelt =
  workspacePath :: dirpath
  fs :: fstree
  mockGitSHA :: "string option"
  stagingContentServiceURL :: "string option"
  stagingPresenterURL :: string
  pullRequestURL :: string
  git :: "error + string"
  issueAPIKey :: "string \<Rightarrow> error + string"
  revokeAPIKey :: "string option \<Rightarrow> error option"
  prepare :: "opts \<Rightarrow> error + results"
  stagingPresenter :: "(string option \<Rightarrow> error + mapping list) option"
  github :: "(string \<Rightarrow> string \<Rightarrow> string \<Rightarrow> error option) option"
  forSuccessfulBuild :: "presentedURLMap \<Rightarrow> string"
  urlJoin :: "string \<Rightarrow> string \<Rightarrow> string"

section \<open>recursivelyPrepare\<close>

subsection \<open>The directories handler\<close>

text \<open>
  \<^verbatim>\<open>/^\./.test(name) || name === '_build' || name === '_site'\<close>
\<close>

definition excluded :: "string \<Rightarrow> bool" where
  "excluded name \<longleftrightarrow>
     (case name of [] \<Rightarrow> False | c # _ \<Rightarrow> c = CHR ''.'') \<or> name = ''_build'' \<or> name = ''_site''"

text \<open>\<^verbatim>\<open>stats.splice(i, 1)\<close>\<close>

definition splice1 :: "'a list \<Rightarrow> nat \<Rightarrow> 'a list" where
  "splice1 stats i = take i stats @ drop (Suc i) stats"

text \<open>
  \<^verbatim>\<open>for (let i = stats.length; i--; i >= 0) { ... }\<close>: the test \<^verbatim>\<open>i--\<close> ends the
  loop when \<^verbatim>\<open>i\<close> is 0 and decrements otherwise, so the body sees
  \<^verbatim>\<open>stats.length - 1\<close> down to 0. The first argument is the value of
  \<^verbatim>\<open>i\<close> before the test. A stat is a pair of its name and the directory it stands
  for.
\<close>

fun prune_loop :: "nat \<Rightarrow> (string \<times> 'a) list \<Rightarrow> (string \<times> 'a) list" where
  "prune_loop 0 stats = stats"
| "prune_loop (Suc i) stats =
     (let name = fst (stats ! i) in
      if excluded name then prune_loop i (splice1 stats i) else prune_loop i stats)"

definition directories_handler :: "(string \<times> 'a) list \<Rightarrow> (string \<times> 'a) list" where
  "directories_handler stats = prune_loop (length stats) stats"

lemma prune_loop_filter:
  "i \<le> length stats \<Longrightarrow>
   prune_loop i stats = filter (\<lambda>st. \<not> excluded (fst st)) (take i stats) @ drop i stats"
proof (induction i arbitrary: stats)
  case 0
  then show ?case by simp
next
  case (Suc i)
  then have lt: "i < length stats" by simp
  have tk: "take (Suc i) stats = take i stats @ [stats ! i]"
    using lt by (simp add: take_Suc_conv_app_nth)
  show ?case
  proof (cases "excluded (fst (stats ! i))")
    case True
    have "i \<le> length (splice1 stats i)" using lt by (simp add: splice1_def)
    then have "prune_loop i (splice1 stats i) =
        filter (\<lambda>st. \<not> excluded (fst st)) (take i (splice1 stats i)) @ drop i (splice1 stats i)"
      by (rule Suc.IH)
    moreover have "take i (splice1 stats i) = take i stats"
      using lt by (simp add: splice1_def)
    moreover have "drop i (splice1 stats i) = drop (Suc i) stats"
      using lt by (simp add: splice1_def)
    ultimately show ?thesis using True tk by simp
  next
    case False
    have "prune_loop i stats =
        filter (\<lambda>st. \<not> excluded (fst st)) (take i stats) @ drop i stats"
      using lt by (intro Suc.IH) simp
    moreover have "drop i stats = stats ! i # drop (Suc i) stats"
      using lt by (simp add: Cons_nth_drop_Suc)
    ultimately show ?thesis using False tk by simp
  qed
qed

lemma directories_handler_filter:
  "directories_handler stats = filter (\<lambda>st. \<not> excluded (fst st)) stats"
  by (simp add: directories_handler_def prune_loop_filter)

lemma directories_handler_subset: "set (directories_handler stats) \<subseteq> set stats"
  by (simp add: directories_handler_filter)

subsection \<open>The walker\<close>

text \<open>
  Modelled from the spec: the traversal primitive (the \<^verbatim>\<open>walk\<close> package) is a
  collaborator outside \<^verbatim>\<open>lib/index.js\<close>. The spec has it traverse depth-first
  from the workspace path, hand the subdirectories of a directory to the directories
  handler before it descends, descend only into those the handler left in the list, and
  hand every visited directory with its file listing to the files handler. \<open>walk\<close>
  gives the files events (root and file names) in the order of the visits.
\<close>

function walk :: "dirpath \<Rightarrow> fstree \<Rightarrow> (dirpath \<times> string list) list" where
  "walk root (Dir files dirs) =
     (root, files) #
     concat (map (\<lambda>(name, sub). walk (root @ [name]) sub) (directories_handler dirs))"
  by pat_completeness auto

lemma size_subdir:
  "(name, sub) \<in> set dirs \<Longrightarrow> size sub < Suc (size_list (size_prod (\<lambda>_. 0) size) dirs)"
  by (induction dirs) auto

termination walk
proof (relation "measure (\<lambda>(root, t). size t)")
  show "wf (measure (\<lambda>(root, t). size t))" by simp
next
  fix root :: dirpath and files :: "string list" and dirs :: "(string \<times> fstree) list"
    and x :: "string \<times> fstree" and name :: string and sub :: fstree
  assume "x \<in> set (directories_handler dirs)" and "(name, sub) = x"
  then have "(name, sub) \<in> set dirs"
    using directories_handler_subset by fastforce
  then show "((root @ [name], sub), (root, Dir files dirs)) \<in> measure (\<lambda>(root, t). size t)"
    using size_subdir by fastforce
qed

subsection \<open>The files handler\<close>

text \<open>
  The variables \<^verbatim>\<open>recursivelyPrepare\<close> closes over, with the caller's
  \<^verbatim>\<open>opts\<close> object (the handler assigns to its \<^verbatim>\<open>contentRoot\<close>), the calls made
  so far and the \<^verbatim>\<open>toolbelt.info\<close> and \<^verbatim>\<open>toolbelt.error\<close> messages
  (the format strings; \<^verbatim>\<open>toolbelt.debug\<close> is left out).
\<close>

record rp_state =
  atLeastOne :: bool
  allSuccessful :: bool
  submittedSomething :: bool
  contentIDMap :: contentIDMap
  rp_opts :: opts
  rp_calls :: "call list"
  rp_log :: "(level \<times> string) list"

definition rp_init :: "opts \<Rightarrow> rp_state" where
  "rp_init caller_opts =
     \<lparr>atLeastOne = False, allSuccessful = True, submittedSomething = False,
      contentIDMap = [], rp_opts = caller_opts, rp_calls = [], rp_log = []\<rparr>"

text \<open>\<^verbatim>\<open>stats.some((each) => each.name === '_deconst.json')\<close>\<close>

definition hasContent :: "string list \<Rightarrow> bool" where
  "hasContent stats = list_ex (\<lambda>each. each = ''_deconst.json'') stats"

text \<open>
  \<^verbatim>\<open>path.relative(from, to)\<close> on component lists: one \<^verbatim>\<open>..\<close> for every
  component of \<open>from\<close> below the common prefix, then the rest of \<open>to\<close>.
\<close>

definition path_relative :: "dirpath \<Rightarrow> dirpath \<Rightarrow> dirpath" where
  "path_relative from to =
     (let n = length (longest_common_prefix from to)
      in replicate (length from - n) ''..'' @ drop n to)"

text \<open>
  The handler of the files event. It returns what it passes to the walker's callback
  (\<^verbatim>\<open>callback(err)\<close> or \<^verbatim>\<open>callback(null)\<close>) and the state it leaves.
\<close>

definition files_handler ::
  "toolbelt \<Rightarrow> dirpath \<Rightarrow> string list \<Rightarrow> rp_state \<Rightarrow> error option \<times> rp_state" where
  "files_handler tb root stats s =
     (if hasContent stats then
        let s1 = s\<lparr>rp_log := rp_log s @ [(Info, ''Deconst content directory: %s'')],
                   rp_opts := (rp_opts s)\<lparr>contentRoot := Some root\<rparr>\<rparr>;
            s2 = s1\<lparr>rp_calls := rp_calls s1 @ [Prepare (rp_opts s1)], atLeastOne := True\<rparr>
        in (case prepare tb (rp_opts s1) of
              Inl err \<Rightarrow> (Some err, s2\<lparr>allSuccessful := False\<rparr>)
            | Inr res \<Rightarrow>
                let relativeRoot = path_relative (workspacePath tb) root;
                    s3 = s2\<lparr>allSuccessful := allSuccessful s2 \<and> success res\<rparr>;
                    s4 = (if didSomething res
                          then s3\<lparr>submittedSomething := True,
                                  contentIDMap :=
                                    AList.update relativeRoot (contentIDBase res) (contentIDMap s3)\<rparr>
                          else s3)
                in (None, s4))
      else (None, s))"

text \<open>
  Modelled from the spec: the walker calls the files handler for every visited directory
  and goes on to the next directory whatever the handler passes to its callback
  (\<^verbatim>\<open>continue visiting siblings after a single failure\<close> is the contract the spec
  requires of the traversal primitive).
\<close>

fun run_files :: "toolbelt \<Rightarrow> (dirpath \<times> string list) list \<Rightarrow> rp_state \<Rightarrow> rp_state" where
  "run_files tb [] s = s"
| "run_files tb ((root, stats) # events) s =
     (case files_handler tb root stats s of (err, s') \<Rightarrow> run_files tb events s')"

subsection \<open>The end handler\<close>

record aggregate =
  agg_didSomething :: bool
  agg_submittedSomething :: bool
  agg_contentIDMap :: contentIDMap

text \<open>
  The arguments of the caller's callback: \<open>Inl\<close> is
  \<^verbatim>\<open>callback(new Error(...), true)\<close>, the error with the second argument;
  \<open>Inr\<close> is \<^verbatim>\<open>callback(null, {...})\<close>.
\<close>

definition end_handler :: "rp_state \<Rightarrow> ((error \<times> bool) + aggregate) \<times> rp_state" where
  "end_handler s =
     (let s1 = (if \<not> atLeastOne s
                then s\<lparr>rp_log := rp_log s @
                       [(Info, ''No content discovered to prepare and submit.''),
                        (Info, ''Please add a _deconst.json file to each root directory where content is located.'')]\<rparr>
                else s)
      in if \<not> allSuccessful s1
         then (Inl (Error ''At least one preparer terminated unsuccessfully.'', True), s1)
         else (Inr \<lparr>agg_didSomething = atLeastOne s1,
                    agg_submittedSomething = submittedSomething s1,
                    agg_contentIDMap = contentIDMap s1\<rparr>, s1))"

text \<open>The state when the walk has ended, and the whole function.\<close>

definition walked :: "toolbelt \<Rightarrow> opts \<Rightarrow> rp_state" where
  "walked tb caller_opts = run_files tb (walk (workspacePath tb) (fs tb)) (rp_init caller_opts)"

definition recursivelyPrepare ::
  "toolbelt \<Rightarrow> opts \<Rightarrow> ((error \<times> bool) + aggregate) \<times> rp_state" where
  "recursivelyPrepare tb caller_opts = end_handler (walked tb caller_opts)"

section \<open>preparePullRequest\<close>

text \<open>
  The variables \<^verbatim>\<open>preparePullRequest\<close> closes over (\<open>None\<close> is
  \<^verbatim>\<open>null\<close>), with the calls made so far and the messages logged.
\<close>

record pr_state =
  pr_revisionID :: "string option"
  transientKey :: "string option"
  pr_contentIDMap :: "contentIDMap option"
  presentedURLMap :: "presentedURLMap option"
  pr_submittedSomething :: bool
  pr_didSomething :: bool
  calls :: "call list"
  logged :: "(level \<times> string) list"

definition pr_init :: pr_state where
  "pr_init =
     \<lparr>pr_revisionID = None, transientKey = None, pr_contentIDMap = None,
      presentedURLMap = None, pr_submittedSomething = False, pr_didSomething = False,
      calls = [], logged = []\<rparr>"

record pr_result =
  result_didSomething :: bool

text \<open>
  A task of the series gets the state and returns what it passes to its callback
  (\<open>None\<close> is \<^verbatim>\<open>cb(null)\<close>) with the state it leaves.

  \<^verbatim>\<open>async.series\<close> runs the tasks in order and stops at the first task that passes
  an error; the tasks after it are not run.
\<close>

fun series :: "('s \<Rightarrow> error option \<times> 's) list \<Rightarrow> 's \<Rightarrow> error option \<times> 's" where
  "series [] s = (None, s)"
| "series (task # tasks) s =
     (case task s of (Some err, s') \<Rightarrow> (Some err, s') | (None, s') \<Rightarrow> series tasks s')"

text \<open>
  \<^verbatim>\<open>async.forEachOf\<close> starts the iteratee on every entry of the object and passes
  the first error to its callback. The entries complete here in the order of the keys.
\<close>

fun forEachOf ::
  "('k \<times> 'v) list \<Rightarrow> ('k \<times> 'v \<Rightarrow> 's \<Rightarrow> error option \<times> 's) \<Rightarrow> 's \<Rightarrow> error option \<times> 's" where
  "forEachOf [] iteratee s = (None, s)"
| "forEachOf (entry # entries) iteratee s =
     (case iteratee entry s of (err, s') \<Rightarrow>
        (case forEachOf entries iteratee s' of (err', s'') \<Rightarrow>
           (case err of Some e \<Rightarrow> Some e | None \<Rightarrow> err', s'')))"

subsection \<open>generateRevisionID\<close>

text \<open>\<^verbatim>\<open>if (toolbelt.config.mockGitSHA)\<close>: unset and the empty string are falsy.\<close>

definition truthy :: "string option \<Rightarrow> bool" where
  "truthy v = (case v of None \<Rightarrow> False | Some str \<Rightarrow> str \<noteq> [])"

text \<open>
  \<^verbatim>\<open>stdout.toString().replace(/\r?\n$/, '')\<close>: a line feed at the end of the string
  is removed, with the carriage return before it when there is one.
\<close>

definition strip_newline :: "string \<Rightarrow> string" where
  "strip_newline out =
     (if out \<noteq> [] \<and> last out = CHR 0x0A
      then (let b = butlast out in if b \<noteq> [] \<and> last b = CHR 0x0D then butlast b else b)
      else out)"

definition generateRevisionID :: "toolbelt \<Rightarrow> pr_state \<Rightarrow> error option \<times> pr_state" where
  "generateRevisionID tb s =
     (if truthy (mockGitSHA tb)
      then (None, s\<lparr>pr_revisionID := Some (''build-'' @ the (mockGitSHA tb))\<rparr>)
      else
        let s1 = s\<lparr>calls := calls s @ [ExecGit]\<rparr>
        in (case git tb of
              Inl err \<Rightarrow>
                (Some err, s1\<lparr>logged := logged s1 @
                   [(Err, ''unable to execute git.''), (Err, ''[stdout]''), (Err, ''[stderr]'')]\<rparr>)
            | Inr stdout \<Rightarrow>
                (None, s1\<lparr>pr_revisionID := Some (''build-'' @ strip_newline stdout)\<rparr>)))"

subsection \<open>issueTransientKey, invokePreparer, revokeTransientKey\<close>

text \<open>\<^verbatim>\<open>'temporary-' + revisionID\<close>; a \<^verbatim>\<open>null\<close> is concatenated as its name.\<close>

definition issueTransientKey :: "toolbelt \<Rightarrow> pr_state \<Rightarrow> error option \<times> pr_state" where
  "issueTransientKey tb s =
     (let name = ''temporary-'' @ (case pr_revisionID s of None \<Rightarrow> ''null'' | Some r \<Rightarrow> r);
          s1 = s\<lparr>calls := calls s @ [IssueAPIKey name]\<rparr>
      in (case issueAPIKey tb name of
            Inl err \<Rightarrow> (Some err, s1)
          | Inr apiKey \<Rightarrow> (None, s1\<lparr>transientKey := Some apiKey\<rparr>)))"

definition preparer_opts :: "toolbelt \<Rightarrow> pr_state \<Rightarrow> opts" where
  "preparer_opts tb s =
     \<lparr>revisionID = pr_revisionID s,
      contentServiceURL = stagingContentServiceURL tb,
      contentServiceAPIKey = transientKey s,
      contentRoot = None\<rparr>"

definition invokePreparer :: "toolbelt \<Rightarrow> pr_state \<Rightarrow> error option \<times> pr_state" where
  "invokePreparer tb s =
     (case recursivelyPrepare tb (preparer_opts tb s) of (r, rs) \<Rightarrow>
        let s1 = s\<lparr>calls := calls s @ rp_calls rs, logged := logged s @ rp_log rs\<rparr>
        in (case r of
              Inl (err, flag) \<Rightarrow> (Some err, s1)
            | Inr result \<Rightarrow>
                (None, s1\<lparr>pr_submittedSomething := agg_submittedSomething result,
                           pr_didSomething := agg_didSomething result,
                           pr_contentIDMap := Some (agg_contentIDMap result)\<rparr>)))"

definition revokeTransientKey :: "toolbelt \<Rightarrow> pr_state \<Rightarrow> error option \<times> pr_state" where
  "revokeTransientKey tb s =
     (revokeAPIKey tb (transientKey s), s\<lparr>calls := calls s @ [RevokeAPIKey (transientKey s)]\<rparr>)"

subsection \<open>getPresentedURLMap\<close>

text \<open>
  The iteratee of \<^verbatim>\<open>async.forEachOf(contentIDMap, ...)\<close>, for the presenter's
  \<^verbatim>\<open>whereis\<close>.
\<close>

definition whereis_iteratee ::
  "toolbelt \<Rightarrow> (string option \<Rightarrow> error + mapping list) \<Rightarrow> dirpath \<times> string option \<Rightarrow>
   pr_state \<Rightarrow> error option \<times> pr_state" where
  "whereis_iteratee tb whereis entry s =
     (case entry of (root, contentID) \<Rightarrow>
        let s1 = s\<lparr>calls := calls s @ [Whereis contentID]\<rparr>
        in (case whereis contentID of
              Inl err \<Rightarrow> (Some err, s1)
            | Inr mappings \<Rightarrow>
                let presentedURLs =
                      map (\<lambda>mapping. urlJoin tb (stagingPresenterURL tb) (path mapping)) mappings
                in (None, s1\<lparr>presentedURLMap :=
                      map_option (AList.update root presentedURLs) (presentedURLMap s1)\<rparr>)))"

text \<open>
  When the task gets as far as \<^verbatim>\<open>async.forEachOf\<close>, \<^verbatim>\<open>invokePreparer\<close> has
  set \<^verbatim>\<open>contentIDMap\<close>; a \<^verbatim>\<open>null\<close> there is taken as no entries.
\<close>

definition getPresentedURLMap :: "toolbelt \<Rightarrow> pr_state \<Rightarrow> error option \<times> pr_state" where
  "getPresentedURLMap tb s =
     (case stagingPresenter tb of
        None \<Rightarrow>
          (None, s\<lparr>logged := logged s @
             [(Err, ''Unable to comment on GitHub: the staging URL is not configured.'')]\<rparr>)
      | Some whereis \<Rightarrow>
          if \<not> pr_submittedSomething s then (None, s)
          else forEachOf (case pr_contentIDMap s of None \<Rightarrow> [] | Some m \<Rightarrow> m)
                 (whereis_iteratee tb whereis) (s\<lparr>presentedURLMap := Some []\<rparr>))"

subsection \<open>commentOnGitHub\<close>

text \<open>
  \<^verbatim>\<open>/([^/]+\/[^/]+)\/pull\/(\d+)$/.exec(url)\<close>, piece by piece. \<open>plus_class\<close> is
  a character class under \<^verbatim>\<open>+\<close>: it takes the longest run of characters of the
  class, which must not be empty, and gives the run and the rest. In this pattern a run of
  characters other than the slash is followed by a slash, and the run of digits by the end
  of the string, so no shorter run can match and the greedy run is the only candidate.
  \<open>literal\<close> is a literal piece: the string must start with it. \<open>match_here\<close>
  matches the whole pattern at the start of a string; \<open>exec_re\<close> tries the start
  positions from left to right, as \<^verbatim>\<open>exec\<close> does, and gives the two groups of the first
  match.
\<close>

definition digit :: "char \<Rightarrow> bool" where
  "digit c \<longleftrightarrow> c \<in> set ''0123456789''"

definition not_slash :: "char \<Rightarrow> bool" where
  "not_slash c \<longleftrightarrow> c \<noteq> CHR ''/''"

definition plus_class :: "(char \<Rightarrow> bool) \<Rightarrow> string \<Rightarrow> (string \<times> string) option" where
  "plus_class cls str =
     (if takeWhile cls str = [] then None else Some (takeWhile cls str, dropWhile cls str))"

definition literal :: "string \<Rightarrow> string \<Rightarrow> string option" where
  "literal lit str = (if prefix lit str then Some (drop (length lit) str) else None)"

definition match_here :: "string \<Rightarrow> (string \<times> string) option" where
  "match_here str =
     (case plus_class not_slash str of
        None \<Rightarrow> None
      | Some (owner, rest1) \<Rightarrow>
     (case literal ''/'' rest1 of
        None \<Rightarrow> None
      | Some rest2 \<Rightarrow>
     (case plus_class not_slash rest2 of
        None \<Rightarrow> None
      | Some (repo, rest3) \<Rightarrow>
     (case literal ''/pull/'' rest3 of
        None \<Rightarrow> None
      | Some rest4 \<Rightarrow>
     (case plus_class digit rest4 of
        None \<Rightarrow> None
      | Some (num, rest5) \<Rightarrow>
          if rest5 = [] then Some (owner @ ''/'' @ repo, num) else None)))))"

fun exec_re :: "string \<Rightarrow> (string \<times> string) option" where
  "exec_re [] = match_here []"
| "exec_re (c # cs) =
     (case match_here (c # cs) of Some m \<Rightarrow> Some m | None \<Rightarrow> exec_re cs)"

definition commentOnGitHub :: "toolbelt \<Rightarrow> pr_state \<Rightarrow> error option \<times> pr_state" where
  "commentOnGitHub tb s =
     (case presentedURLMap s of
        None \<Rightarrow> (None, s)
      | Some urls \<Rightarrow>
          if \<not> pr_submittedSomething s then (None, s)
          else
            (case github tb of
               None \<Rightarrow>
                 let roots = map fst urls
                 in (None, s\<lparr>logged := logged s @
                       (Err, ''Unable to comment on GitHub: no GitHub account available.'') #
                       (if length roots = 1
                        then [(Info, ''Your preview is available at %s.'')]
                        else (Info, ''Your previews are available at:'') #
                             map (\<lambda>root. (Info, ''* %s: %s'')) roots)\<rparr>)
             | Some postComment \<Rightarrow>
                 (case exec_re (pullRequestURL tb) of
                    None \<Rightarrow>
                      (None, s\<lparr>logged := logged s @
                         [(Err, ''Unable to comment on GitHub: the pull request URL looks wrong.''),
                          (Err, ''URL: [%s]'')]\<rparr>)
                  | Some (repoName, pullRequestNumber) \<Rightarrow>
                      let commentBody = forSuccessfulBuild tb urls
                      in (postComment repoName pullRequestNumber commentBody,
                          s\<lparr>calls := calls s @
                             [PostComment repoName pullRequestNumber commentBody]\<rparr>))))"

subsection \<open>The series\<close>

definition tasks :: "toolbelt \<Rightarrow> (pr_state \<Rightarrow> error option \<times> pr_state) list" where
  "tasks tb =
     [generateRevisionID tb, issueTransientKey tb, invokePreparer tb,
      revokeTransientKey tb, getPresentedURLMap tb, commentOnGitHub tb]"

definition preparePullRequest :: "toolbelt \<Rightarrow> (error + pr_result) \<times> pr_state" where
  "preparePullRequest tb =
     (case series (tasks tb) pr_init of
        (Some err, s) \<Rightarrow> (Inl err, s)
      | (None, s) \<Rightarrow> (Inr \<lparr>result_didSomething = pr_didSomething s\<rparr>, s))"

section \<open>Reference notions\<close>

subsection \<open>What a run of the walk is measured against\<close>

text \<open>
  The content roots the walk discovers, in the order of the visits: the visited
  directories whose file listing has the marker file. The list does not depend on what
  the preparer returns.
\<close>

definition roots_of :: "(dirpath \<times> string list) list \<Rightarrow> dirpath list" where
  "roots_of events = map fst (filter (\<lambda>(root, stats). hasContent stats) events)"

definition contentRoots :: "toolbelt \<Rightarrow> dirpath list" where
  "contentRoots tb = roots_of (walk (workspacePath tb) (fs tb))"

text \<open>
  What the preparer returns for a root: the handler calls it with the caller's
  \<^verbatim>\<open>opts\<close> object, \<^verbatim>\<open>contentRoot\<close> set to the root. A preparation is
  unsuccessful when the preparer passes an error or \<^verbatim>\<open>results.success\<close> is false; it
  submitted something when \<^verbatim>\<open>results.didSomething\<close> is true.
\<close>

definition outcome :: "toolbelt \<Rightarrow> opts \<Rightarrow> dirpath \<Rightarrow> error + results" where
  "outcome tb caller_opts root = prepare tb (caller_opts\<lparr>contentRoot := Some root\<rparr>)"

definition unsuccessful :: "toolbelt \<Rightarrow> opts \<Rightarrow> dirpath \<Rightarrow> bool" where
  "unsuccessful tb caller_opts root =
     (case outcome tb caller_opts root of Inl err \<Rightarrow> True | Inr res \<Rightarrow> \<not> success res)"



text \<open>
  The calls that revoke a key; the addresses a content ID is presented at, as
  \<^verbatim>\<open>getPresentedURLMap\<close> joins them; the errors of the presenter over the entries of
  a \<^verbatim>\<open>contentIDMap\<close>, in the order of the entries.
\<close>

definition is_revoke :: "call \<Rightarrow> bool" where
  "is_revoke c = (case c of RevokeAPIKey key \<Rightarrow> True | _ \<Rightarrow> False)"



section \<open>An example workspace\<close>

text \<open>
  A workspace with content roots \<^verbatim>\<open>api\<close>, \<^verbatim>\<open>docs\<close> and \<^verbatim>\<open>guide\<close>, marker
  files below \<^verbatim>\<open>.git\<close>, \<^verbatim>\<open>docs/_build\<close> and \<^verbatim>\<open>_site\<close>, and a preparer
  that fails on \<^verbatim>\<open>api\<close>, submits \<^verbatim>\<open>docs\<close> and has nothing to do for
  \<^verbatim>\<open>guide\<close>.
\<close>

definition example_fs :: fstree where
  "example_fs =
     Dir [''README.md'']
       [(''api'', Dir [''_deconst.json''] []),
        (''.git'', Dir [''_deconst.json'', ''HEAD''] []),
        (''docs'', Dir [''index.rst'', ''_deconst.json'']
           [(''_build'', Dir [''_deconst.json''] []), (''img'', Dir [''a.png''] [])]),
        (''_site'', Dir [] [(''deep'', Dir [''_deconst.json''] [])]),
        (''guide'', Dir [''_deconst.json''] [])]"

definition example_prepare :: "opts \<Rightarrow> error + results" where
  "example_prepare ops =
     (if contentRoot ops = Some [''ws'', ''api''] then Inl (Error ''preparer crashed'')
      else if contentRoot ops = Some [''ws'', ''guide'']
      then Inr \<lparr>success = True, didSomething = False, contentIDBase = None\<rparr>
      else Inr \<lparr>success = True, didSomething = True,
                contentIDBase = Some ''https://example.org/docs/''\<rparr>)"

definition example_toolbelt :: toolbelt where
  "example_toolbelt =
     \<lparr>workspacePath = [''ws''], fs = example_fs, mockGitSHA = Some ''abc123'',
      stagingContentServiceURL = Some ''https://staging.example.org/'',
      stagingPresenterURL = ''https://preview.example.org/'',
      pullRequestURL = ''https://host/owner/repo/pull/42'',
      git = Inr (''0123456789'' @ [CHR 0x0A]),
      issueAPIKey = (\<lambda>name. Inr (''key-for-'' @ name)),
      revokeAPIKey = (\<lambda>key. None),
      prepare = example_prepare,
      stagingPresenter = None,
      github = None,
      forSuccessfulBuild = (\<lambda>m. ''preview comment''),
      urlJoin = (\<lambda>base p. base @ p)\<rparr>"

definition example_opts :: opts where
  "example_opts =
     \<lparr>revisionID = Some ''build-abc123'', contentServiceURL = Some ''https://staging.example.org/'',
      contentServiceAPIKey = Some ''key-for-temporary-build-abc123'', contentRoot = None\<rparr>"

text \<open>
  The same workspace with a preparer that submits every root; a presenter that cannot
  resolve the content ID of \<^verbatim>\<open>api\<close>; a GitHub client that posts, and a toolbelt
  with it and a presenter that resolves every content ID; and the states of the pipeline
  after the key was issued, after the preparation, and after the preview addresses were
  resolved.
\<close>

definition example_good_prepare :: "opts \<Rightarrow> error + results" where
  "example_good_prepare ops =
     Inr \<lparr>success = True, didSomething = True,
          contentIDBase = map_option (\<lambda>root. ''staging/'' @ last root) (contentRoot ops)\<rparr>"

definition example_toolbelt_ok :: toolbelt where
  "example_toolbelt_ok = example_toolbelt\<lparr>prepare := example_good_prepare\<rparr>"





definition example_issued :: pr_state where
  "example_issued =
     pr_init\<lparr>pr_revisionID := Some ''build-abc123'',
             transientKey := Some ''key-for-temporary-build-abc123'',
             calls := [IssueAPIKey ''temporary-build-abc123'']\<rparr>"



section \<open>Lemmas\<close>

subsection \<open>The state after the walk\<close>

lemma roots_of_simps:
  "roots_of [] = []"
  "roots_of ((root, stats) # events) =
     (if hasContent stats then root # roots_of events else roots_of events)"
  by (simp_all add: roots_of_def)

lemma outcome_upd: "outcome tb (ops\<lparr>contentRoot := x\<rparr>) root = outcome tb ops root"
  by (simp add: outcome_def)

lemma unsuccessful_upd: "unsuccessful tb (ops\<lparr>contentRoot := x\<rparr>) = unsuccessful tb ops"
  by (rule ext) (simp add: unsuccessful_def outcome_upd)



lemma fh_skip: "\<not> hasContent stats \<Longrightarrow> files_handler tb root stats s = (None, s)"
  by (simp add: files_handler_def)

lemma fh_opts:
  "hasContent stats \<Longrightarrow>
   rp_opts (snd (files_handler tb root stats s)) = (rp_opts s)\<lparr>contentRoot := Some root\<rparr>"
  by (simp add: files_handler_def Let_def split: sum.split)

lemma fh_calls:
  "hasContent stats \<Longrightarrow>
   rp_calls (snd (files_handler tb root stats s)) =
     rp_calls s @ [Prepare ((rp_opts s)\<lparr>contentRoot := Some root\<rparr>)]"
  by (simp add: files_handler_def Let_def split: sum.split)

lemma fh_atLeastOne:
  "hasContent stats \<Longrightarrow> atLeastOne (snd (files_handler tb root stats s))"
  by (simp add: files_handler_def Let_def split: sum.split)

lemma fh_allSuccessful:
  "hasContent stats \<Longrightarrow>
   allSuccessful (snd (files_handler tb root stats s)) =
     (allSuccessful s \<and> \<not> unsuccessful tb (rp_opts s) root)"
  by (simp add: files_handler_def Let_def unsuccessful_def outcome_def split: sum.split)



lemma run_files_Cons:
  "run_files tb ((root, stats) # events) s =
     run_files tb events (snd (files_handler tb root stats s))"
  by (simp split: prod.split)

lemma run_files_opts:
  "rp_opts (run_files tb events s) =
     (if roots_of events = [] then rp_opts s
      else (rp_opts s)\<lparr>contentRoot := Some (last (roots_of events))\<rparr>)"
proof (induction events arbitrary: s)
  case Nil
  then show ?case by (simp add: roots_of_simps)
next
  case (Cons ev events)
  obtain root stats where ev: "ev = (root, stats)" by (cases ev)
  show ?case
  proof (cases "hasContent stats")
    case True
    then show ?thesis
      unfolding ev run_files_Cons Cons.IH by (simp add: roots_of_simps fh_opts)
  next
    case False
    then show ?thesis
      unfolding ev run_files_Cons Cons.IH by (simp add: roots_of_simps fh_skip)
  qed
qed

lemma run_files_calls:
  "rp_calls (run_files tb events s) =
     rp_calls s @ map (\<lambda>root. Prepare ((rp_opts s)\<lparr>contentRoot := Some root\<rparr>)) (roots_of events)"
proof (induction events arbitrary: s)
  case Nil
  then show ?case by (simp add: roots_of_simps)
next
  case (Cons ev events)
  obtain root stats where ev: "ev = (root, stats)" by (cases ev)
  show ?case
  proof (cases "hasContent stats")
    case True
    then show ?thesis
      unfolding ev run_files_Cons Cons.IH by (simp add: roots_of_simps fh_opts fh_calls)
  next
    case False
    then show ?thesis
      unfolding ev run_files_Cons Cons.IH by (simp add: roots_of_simps fh_skip)
  qed
qed

lemma run_files_atLeastOne:
  "atLeastOne (run_files tb events s) = (atLeastOne s \<or> roots_of events \<noteq> [])"
proof (induction events arbitrary: s)
  case Nil
  then show ?case by (simp add: roots_of_simps)
next
  case (Cons ev events)
  obtain root stats where ev: "ev = (root, stats)" by (cases ev)
  show ?case
  proof (cases "hasContent stats")
    case True
    then show ?thesis
      unfolding ev run_files_Cons Cons.IH by (simp add: roots_of_simps fh_atLeastOne)
  next
    case False
    then show ?thesis
      unfolding ev run_files_Cons Cons.IH by (simp add: roots_of_simps fh_skip)
  qed
qed

lemma run_files_allSuccessful:
  "allSuccessful (run_files tb events s) =
     (allSuccessful s \<and> \<not> list_ex (unsuccessful tb (rp_opts s)) (roots_of events))"
proof (induction events arbitrary: s)
  case Nil
  then show ?case by (simp add: roots_of_simps)
next
  case (Cons ev events)
  obtain root stats where ev: "ev = (root, stats)" by (cases ev)
  show ?case
  proof (cases "hasContent stats")
    case True
    then show ?thesis
      unfolding ev run_files_Cons Cons.IH
      by (auto simp add: roots_of_simps fh_opts fh_allSuccessful unsuccessful_upd)
  next
    case False
    then show ?thesis
      unfolding ev run_files_Cons Cons.IH by (simp add: roots_of_simps fh_skip)
  qed
qed


lemma lcp_append: "longest_common_prefix xs (xs @ ys) = xs"
  by (induction xs) simp_all

lemma path_relative_append: "path_relative ws (ws @ rel) = rel"
  by (simp add: path_relative_def lcp_append)


lemma walk_prefix: "(r, stats) \<in> set (walk root t) \<Longrightarrow> prefix root r"
proof (induction root t arbitrary: r stats rule: walk.induct)
  case (1 root files dirs)
  from "1.prems" consider "r = root"
    | name sub where "(name, sub) \<in> set (directories_handler dirs)"
        "(r, stats) \<in> set (walk (root @ [name]) sub)"
    by auto
  then show ?case
  proof cases
    case 1
    then show ?thesis by simp
  next
    case 2
    then have "prefix (root @ [name]) r" using "1.IH" by blast
    then show ?thesis by (rule append_prefixD)
  qed
qed

lemma walk_no_excluded:
  "(r, stats) \<in> set (walk root t) \<Longrightarrow> name \<in> set (drop (length root) r) \<Longrightarrow> \<not> excluded name"
proof (induction root t arbitrary: r stats rule: walk.induct)
  case (1 root files dirs)
  from "1.prems"(1) consider "r = root"
    | n sub where "(n, sub) \<in> set (directories_handler dirs)"
        "(r, stats) \<in> set (walk (root @ [n]) sub)"
    by auto
  then show ?case
  proof cases
    case 1
    with "1.prems"(2) show ?thesis by simp
  next
    case 2
    then have pre: "prefix (root @ [n]) r" by (simp add: walk_prefix)
    then obtain zs where r: "r = root @ n # zs" by (auto elim: prefixE)
    from 2(1) have nx: "\<not> excluded n" by (auto simp add: directories_handler_filter)
    from "1.prems"(2) r have "name = n \<or> name \<in> set (drop (length (root @ [n])) r)" by auto
    then show ?thesis
    proof
      assume "name = n" with nx show ?thesis by simp
    next
      assume "name \<in> set (drop (length (root @ [n])) r)"
      with "1.IH" 2 show ?thesis by blast
    qed
  qed
qed


lemma end_handler_fields:
  "atLeastOne (snd (end_handler s)) = atLeastOne s"
  "allSuccessful (snd (end_handler s)) = allSuccessful s"
  "submittedSomething (snd (end_handler s)) = submittedSomething s"
  "contentIDMap (snd (end_handler s)) = contentIDMap s"
  "rp_opts (snd (end_handler s)) = rp_opts s"
  "rp_calls (snd (end_handler s)) = rp_calls s"
  by (simp_all add: end_handler_def Let_def)

lemma end_handler_fst:
  "fst (end_handler s) =
     (if allSuccessful s
      then Inr \<lparr>agg_didSomething = atLeastOne s, agg_submittedSomething = submittedSomething s,
                agg_contentIDMap = contentIDMap s\<rparr>
      else Inl (Error ''At least one preparer terminated unsuccessfully.'', True))"
  by (simp add: end_handler_def Let_def)

lemma rp_init_fields:
  "atLeastOne (rp_init ops) = False" "allSuccessful (rp_init ops) = True"
  "submittedSomething (rp_init ops) = False" "contentIDMap (rp_init ops) = []"
  "rp_opts (rp_init ops) = ops" "rp_calls (rp_init ops) = []"
  by (simp_all add: rp_init_def)




subsection \<open>The example workspace, evaluated\<close>

lemma example_toolbelt_sel:
  "workspacePath example_toolbelt = [''ws'']"
  "fs example_toolbelt = example_fs"
  "mockGitSHA example_toolbelt = Some ''abc123''"
  "stagingContentServiceURL example_toolbelt = Some ''https://staging.example.org/''"
  "stagingPresenterURL example_toolbelt = ''https://preview.example.org/''"
  "pullRequestURL example_toolbelt = ''https://host/owner/repo/pull/42''"
  "git example_toolbelt = Inr (''0123456789'' @ [CHR 0x0A])"
  "issueAPIKey example_toolbelt = (\<lambda>name. Inr (''key-for-'' @ name))"
  "revokeAPIKey example_toolbelt = (\<lambda>key. None)"
  "prepare example_toolbelt = example_prepare"
  "stagingPresenter example_toolbelt = None"
  "github example_toolbelt = None"
  "forSuccessfulBuild example_toolbelt = (\<lambda>m. ''preview comment'')"
  "urlJoin example_toolbelt = (\<lambda>base p. base @ p)"
  by (simp_all add: example_toolbelt_def)

lemma example_walk:
  "walk [''ws''] example_fs =
     [([''ws''], [''README.md'']), ([''ws'', ''api''], [''_deconst.json'']),
      ([''ws'', ''docs''], [''index.rst'', ''_deconst.json'']),
      ([''ws'', ''docs'', ''img''], [''a.png'']),
      ([''ws'', ''guide''], [''_deconst.json''])]"
  by (simp add: example_fs_def directories_handler_filter excluded_def)

lemma example_contentRoots:
  "contentRoots example_toolbelt = [[''ws'', ''api''], [''ws'', ''docs''], [''ws'', ''guide'']]"
  by (simp add: contentRoots_def example_toolbelt_sel example_walk roots_of_def hasContent_def)

lemma example_outcome:
  "outcome example_toolbelt example_opts [''ws'', ''api''] = Inl (Error ''preparer crashed'')"
  "outcome example_toolbelt example_opts [''ws'', ''docs''] =
     Inr \<lparr>success = True, didSomething = True, contentIDBase = Some ''https://example.org/docs/''\<rparr>"
  "outcome example_toolbelt example_opts [''ws'', ''guide''] =
     Inr \<lparr>success = True, didSomething = False, contentIDBase = None\<rparr>"
  by (simp_all add: outcome_def example_toolbelt_sel example_prepare_def)

lemma example_contentIDMap:
  "contentIDMap (snd (recursivelyPrepare example_toolbelt example_opts)) =
     [([''docs''], Some ''https://example.org/docs/'')]"
  by (simp add: recursivelyPrepare_def end_handler_fields walked_def example_toolbelt_sel
      example_walk files_handler_def hasContent_def example_prepare_def
      rp_init_def path_relative_def Let_def)

subsection \<open>The tasks of the series\<close>

lemma series_append:
  "series (xs @ ys) s =
     (case series xs s of (Some err, s') \<Rightarrow> (Some err, s') | (None, s') \<Rightarrow> series ys s')"
  by (induction xs arbitrary: s) (auto split: prod.split option.split)

lemma series_invariant:
  assumes "\<And>t s. t \<in> set ts \<Longrightarrow> I s \<Longrightarrow> I (snd (t s))" and "I s"
  shows "I (snd (series ts s))"
  using assms
proof (induction ts arbitrary: s)
  case Nil
  then show ?case by simp
next
  case (Cons t ts)
  have step: "I (snd (t s))" using Cons.prems by simp
  show ?case
  proof (cases "t s")
    case (Pair err s')
    with step have I': "I s'" by simp
    show ?thesis
    proof (cases err)
      case None
      have "I (snd (series ts s'))" using Cons.prems(1) I' by (intro Cons.IH) simp_all
      with Pair None show ?thesis by simp
    next
      case (Some e)
      with Pair I' show ?thesis by simp
    qed
  qed
qed

lemma series_Cons:
  "series (t # ts) s =
     (case fst (t s) of Some err \<Rightarrow> (Some err, snd (t s)) | None \<Rightarrow> series ts (snd (t s)))"
  by (simp split: prod.split option.split)

lemma forEachOf_Cons_snd:
  "snd (forEachOf (entry # m) iteratee s) = snd (forEachOf m iteratee (snd (iteratee entry s)))"
  by (simp split: prod.split)


lemma generateRevisionID_calls:
  "calls (snd (generateRevisionID tb s)) =
     calls s @ (if truthy (mockGitSHA tb) then [] else [ExecGit])"
  by (simp add: generateRevisionID_def Let_def split: sum.split)

lemma issueTransientKey_calls:
  "calls (snd (issueTransientKey tb s)) =
     calls s @ [IssueAPIKey (''temporary-'' @ (case pr_revisionID s of None \<Rightarrow> ''null'' | Some r \<Rightarrow> r))]"
  by (simp add: issueTransientKey_def Let_def split: sum.split)

lemma invokePreparer_calls:
  "calls (snd (invokePreparer tb s)) =
     calls s @ map (\<lambda>root. Prepare ((preparer_opts tb s)\<lparr>contentRoot := Some root\<rparr>)) (contentRoots tb)"
proof -
  have "rp_calls (snd (recursivelyPrepare tb (preparer_opts tb s))) =
      map (\<lambda>root. Prepare ((preparer_opts tb s)\<lparr>contentRoot := Some root\<rparr>)) (contentRoots tb)"
    by (simp add: recursivelyPrepare_def end_handler_fields walked_def contentRoots_def
        run_files_calls rp_init_fields)
  then show ?thesis
    by (cases "recursivelyPrepare tb (preparer_opts tb s)")
      (auto simp add: invokePreparer_def Let_def split: sum.split)
qed

lemma revokeTransientKey_calls:
  "calls (snd (revokeTransientKey tb s)) = calls s @ [RevokeAPIKey (transientKey s)]"
  by (simp add: revokeTransientKey_def)

lemma whereis_iteratee_calls:
  "calls (snd (whereis_iteratee tb whereis (root, contentID) s)) = calls s @ [Whereis contentID]"
  by (simp add: whereis_iteratee_def Let_def split: sum.split)

lemma forEachOf_whereis_calls:
  "calls (snd (forEachOf m (whereis_iteratee tb whereis) s)) =
     calls s @ map (\<lambda>(root, contentID). Whereis contentID) m"
proof (induction m arbitrary: s)
  case Nil
  then show ?case by simp
next
  case (Cons entry m)
  obtain root contentID where entry: "entry = (root, contentID)" by (cases entry)
  show ?case
    unfolding forEachOf_Cons_snd Cons.IH by (simp add: entry whereis_iteratee_calls)
qed

lemma getPresentedURLMap_calls:
  "calls (snd (getPresentedURLMap tb s)) =
     calls s @
     (case stagingPresenter tb of
        None \<Rightarrow> []
      | Some whereis \<Rightarrow>
          if pr_submittedSomething s
          then map (\<lambda>(root, contentID). Whereis contentID)
                 (case pr_contentIDMap s of None \<Rightarrow> [] | Some m \<Rightarrow> m)
          else [])"
  by (simp add: getPresentedURLMap_def forEachOf_whereis_calls split: option.split)

lemma commentOnGitHub_calls:
  "\<exists>cs. calls (snd (commentOnGitHub tb s)) = calls s @ cs
        \<and> (\<forall>c \<in> set cs. \<exists>repo num body. c = PostComment repo num body)"
  by (simp add: commentOnGitHub_def Let_def split: option.split prod.split)

lemma no_revoke:
  "filter is_revoke (calls (snd (generateRevisionID tb s))) = filter is_revoke (calls s)"
  "filter is_revoke (calls (snd (issueTransientKey tb s))) = filter is_revoke (calls s)"
  "filter is_revoke (calls (snd (invokePreparer tb s))) = filter is_revoke (calls s)"
  "filter is_revoke (calls (snd (getPresentedURLMap tb s))) = filter is_revoke (calls s)"
  "filter is_revoke (calls (snd (commentOnGitHub tb s))) = filter is_revoke (calls s)"
proof -
  show "filter is_revoke (calls (snd (generateRevisionID tb s))) = filter is_revoke (calls s)"
    by (simp add: generateRevisionID_calls is_revoke_def)
  show "filter is_revoke (calls (snd (issueTransientKey tb s))) = filter is_revoke (calls s)"
    by (simp add: issueTransientKey_calls is_revoke_def)
  show "filter is_revoke (calls (snd (invokePreparer tb s))) = filter is_revoke (calls s)"
    by (simp add: invokePreparer_calls is_revoke_def filter_empty_conv)
  show "filter is_revoke (calls (snd (getPresentedURLMap tb s))) = filter is_revoke (calls s)"
    by (auto simp add: getPresentedURLMap_calls is_revoke_def filter_empty_conv
        split: option.split)
  obtain cs where cs: "calls (snd (commentOnGitHub tb s)) = calls s @ cs"
    "\<forall>c \<in> set cs. \<exists>repo num body. c = PostComment repo num body"
    using commentOnGitHub_calls by blast
  then have "filter is_revoke cs = []"
    by (auto simp add: filter_empty_conv is_revoke_def)
  with cs show "filter is_revoke (calls (snd (commentOnGitHub tb s))) = filter is_revoke (calls s)"
    by simp
qed

lemma transientKey_kept:
  "transientKey (snd (invokePreparer tb s)) = transientKey s"
  "transientKey (snd (generateRevisionID tb s)) = transientKey s"
  by (simp_all add: invokePreparer_def generateRevisionID_def Let_def
      split: prod.split sum.split)

lemma invokePreparer_succeeds_iff:
  "(fst (invokePreparer tb s) = None) =
     (\<not> (\<exists>root \<in> set (contentRoots tb). unsuccessful tb (preparer_opts tb s) root))"
proof -
  have "(fst (invokePreparer tb s) = None) =
      (\<exists>r. fst (recursivelyPrepare tb (preparer_opts tb s)) = Inr r)"
    by (auto simp add: invokePreparer_def Let_def split: prod.split sum.split)
  also have "\<dots> = allSuccessful (walked tb (preparer_opts tb s))"
    by (simp add: recursivelyPrepare_def end_handler_fst)
  also have "\<dots> = (\<not> (\<exists>root \<in> set (contentRoots tb). unsuccessful tb (preparer_opts tb s) root))"
    by (simp add: walked_def contentRoots_def run_files_allSuccessful rp_init_fields list_ex_iff)
  finally show ?thesis .
qed

lemma no_git:
  "truthy (mockGitSHA tb) \<Longrightarrow>
   ExecGit \<notin> set (calls s) \<Longrightarrow> ExecGit \<notin> set (calls (snd (generateRevisionID tb s)))"
  "ExecGit \<notin> set (calls s) \<Longrightarrow> ExecGit \<notin> set (calls (snd (issueTransientKey tb s)))"
  "ExecGit \<notin> set (calls s) \<Longrightarrow> ExecGit \<notin> set (calls (snd (invokePreparer tb s)))"
  "ExecGit \<notin> set (calls s) \<Longrightarrow> ExecGit \<notin> set (calls (snd (revokeTransientKey tb s)))"
  "ExecGit \<notin> set (calls s) \<Longrightarrow> ExecGit \<notin> set (calls (snd (getPresentedURLMap tb s)))"
  "ExecGit \<notin> set (calls s) \<Longrightarrow> ExecGit \<notin> set (calls (snd (commentOnGitHub tb s)))"
proof -
  show "truthy (mockGitSHA tb) \<Longrightarrow>
      ExecGit \<notin> set (calls s) \<Longrightarrow> ExecGit \<notin> set (calls (snd (generateRevisionID tb s)))"
    by (simp add: generateRevisionID_calls)
  show "ExecGit \<notin> set (calls s) \<Longrightarrow> ExecGit \<notin> set (calls (snd (issueTransientKey tb s)))"
    by (simp add: issueTransientKey_calls)
  show "ExecGit \<notin> set (calls s) \<Longrightarrow> ExecGit \<notin> set (calls (snd (invokePreparer tb s)))"
    by (auto simp add: invokePreparer_calls)
  show "ExecGit \<notin> set (calls s) \<Longrightarrow> ExecGit \<notin> set (calls (snd (revokeTransientKey tb s)))"
    by (simp add: revokeTransientKey_calls)
  show "ExecGit \<notin> set (calls s) \<Longrightarrow> ExecGit \<notin> set (calls (snd (getPresentedURLMap tb s)))"
    by (auto simp add: getPresentedURLMap_calls split: option.split)
  show "ExecGit \<notin> set (calls s) \<Longrightarrow> ExecGit \<notin> set (calls (snd (commentOnGitHub tb s)))"
    using commentOnGitHub_calls [of tb s] by auto
qed

lemma preparePullRequest_snd: "snd (preparePullRequest tb) = snd (series (tasks tb) pr_init)"
  by (simp add: preparePullRequest_def split: prod.split option.split)

lemma preparePullRequest_fst:
  "fst (preparePullRequest tb) =
     (case fst (series (tasks tb) pr_init) of
        Some err \<Rightarrow> Inl err
      | None \<Rightarrow> Inr \<lparr>result_didSomething = pr_didSomething (snd (series (tasks tb) pr_init))\<rparr>)"
  by (simp add: preparePullRequest_def split: prod.split option.split)

lemma strip_newline_LF:
  "strip_newline (line @ [CHR 0x0A]) =
     (if line \<noteq> [] \<and> last line = CHR 0x0D then butlast line else line)"
  by (simp add: strip_newline_def Let_def)

lemma presentedURLMap_kept:
  "presentedURLMap (snd (generateRevisionID tb s)) = presentedURLMap s"
  "presentedURLMap (snd (issueTransientKey tb s)) = presentedURLMap s"
  "presentedURLMap (snd (invokePreparer tb s)) = presentedURLMap s"
  "presentedURLMap (snd (revokeTransientKey tb s)) = presentedURLMap s"
  by (simp_all add: generateRevisionID_def issueTransientKey_def invokePreparer_def
      revokeTransientKey_def Let_def split: prod.split sum.split)

lemma invokePreparer_didSomething:
  assumes "fst (invokePreparer tb s) = None"
  shows "pr_didSomething (snd (invokePreparer tb s)) = (contentRoots tb \<noteq> [])"
proof -
  obtain r rs where rr: "recursivelyPrepare tb (preparer_opts tb s) = (r, rs)"
    by (cases "recursivelyPrepare tb (preparer_opts tb s)")
  from assms rr obtain result where r: "r = Inr result"
    by (cases r) (auto simp add: invokePreparer_def Let_def)
  have "fst (recursivelyPrepare tb (preparer_opts tb s)) = Inr result"
    using rr r by simp
  then have "agg_didSomething result = atLeastOne (walked tb (preparer_opts tb s))"
    by (auto simp add: recursivelyPrepare_def end_handler_fst split: if_splits)
  also have "\<dots> = (contentRoots tb \<noteq> [])"
    by (simp add: walked_def contentRoots_def run_files_atLeastOne rp_init_fields)
  finally show ?thesis
    using rr r by (simp add: invokePreparer_def Let_def)
qed

lemma revokeTransientKey_didSomething:
  "pr_didSomething (snd (revokeTransientKey tb s)) = pr_didSomething s"
  by (simp add: revokeTransientKey_def)

lemma four_tasks_didSomething:
  assumes "series [generateRevisionID tb, issueTransientKey tb, invokePreparer tb,
                   revokeTransientKey tb] pr_init = (None, s)"
  shows "pr_didSomething s = (contentRoots tb \<noteq> [])"
proof -
  let ?s2 = "snd (issueTransientKey tb (snd (generateRevisionID tb pr_init)))"
  from assms have p: "fst (invokePreparer tb ?s2) = None"
    and s: "s = snd (revokeTransientKey tb (snd (invokePreparer tb ?s2)))"
    by (auto simp del: series.simps(2) simp add: series_Cons split: option.splits)
  show ?thesis
    unfolding s revokeTransientKey_didSomething by (rule invokePreparer_didSomething [OF p])
qed

subsection \<open>The pull request URL\<close>






subsection \<open>The presenter queries\<close>








section \<open>The claims\<close>

text \<open>
  Claim C1, as the code has it. When the run has issued the transient key,
  \<^verbatim>\<open>revokeAPIKey\<close> is called exactly once, on that key, if the preparation stage
  succeeds; if the preparation stage passes an error, \<^verbatim>\<open>async.series\<close> stops there
  and \<^verbatim>\<open>revokeAPIKey\<close> is not called. The preparation stage succeeds exactly when no
  content root's preparation is unsuccessful.
\<close>

theorem revoke_once_iff_preparation_succeeds:
  assumes "series [generateRevisionID tb, issueTransientKey tb] pr_init = (None, s)"
  shows "(\<exists>key. transientKey s = Some key)
    \<and> filter is_revoke (calls (snd (preparePullRequest tb))) =
        (if fst (invokePreparer tb s) = None then [RevokeAPIKey (transientKey s)] else [])
    \<and> (fst (invokePreparer tb s) = None) =
        (\<not> (\<exists>root \<in> set (contentRoots tb). unsuccessful tb (preparer_opts tb s) root))"
proof -
  have key: "\<exists>key. transientKey s = Some key"
    using assms
    by (auto simp add: issueTransientKey_def Let_def split: prod.splits option.splits sum.splits)
  have "filter is_revoke (calls (snd (series [generateRevisionID tb, issueTransientKey tb] pr_init))) = []"
    by (rule series_invariant) (auto simp add: no_revoke pr_init_def)
  with assms have none: "filter is_revoke (calls s) = []" by simp
  have split: "tasks tb = [generateRevisionID tb, issueTransientKey tb] @
      [invokePreparer tb, revokeTransientKey tb] @ [getPresentedURLMap tb, commentOnGitHub tb]"
    by (simp add: tasks_def)
  have run: "series (tasks tb) pr_init =
      series ([invokePreparer tb, revokeTransientKey tb] @
              [getPresentedURLMap tb, commentOnGitHub tb]) s"
    unfolding split by (subst series_append) (simp only: assms prod.case option.case)
  have fin: "snd (preparePullRequest tb) = snd (series (tasks tb) pr_init)"
    by (simp add: preparePullRequest_def split: prod.split option.split)
  obtain e3 s3 where t3: "invokePreparer tb s = (e3, s3)" by (cases "invokePreparer tb s")
  have s3: "filter is_revoke (calls s3) = []" "transientKey s3 = transientKey s"
    using no_revoke(3) [of tb s] transientKey_kept(1) [of tb s] none t3 by simp_all
  have rev: "filter is_revoke (calls (snd (preparePullRequest tb))) =
      (if e3 = None then [RevokeAPIKey (transientKey s)] else [])"
  proof (cases e3)
    case (Some err)
    then show ?thesis using t3 s3 by (simp del: series.simps add: fin run series_Cons)
  next
    case None
    let ?s4 = "snd (revokeTransientKey tb s3)"
    have s4: "filter is_revoke (calls ?s4) = [RevokeAPIKey (transientKey s)]"
      using s3 by (simp add: revokeTransientKey_calls is_revoke_def)
    have rest: "filter is_revoke
        (calls (snd (series [getPresentedURLMap tb, commentOnGitHub tb] ?s4))) =
        [RevokeAPIKey (transientKey s)]"
      by (rule series_invariant) (auto simp add: no_revoke s4)
    show ?thesis
    proof (cases "fst (revokeTransientKey tb s3)")
      case None': None
      have "series (tasks tb) pr_init = series [getPresentedURLMap tb, commentOnGitHub tb] ?s4"
        unfolding run using t3 None None'
        by (simp del: series.simps add: series_Cons)
      then show ?thesis using rest None by (simp add: fin)
    next
      case (Some err)
      have "snd (series (tasks tb) pr_init) = ?s4"
        unfolding run using t3 None Some by (simp del: series.simps add: series_Cons)
      then show ?thesis using s4 None by (simp add: fin)
    qed
  qed
  show ?thesis using key rev t3 invokePreparer_succeeds_iff [of tb s] by simp
qed

text \<open>
  The theorem at the example workspace with a preparer that submits every root (the key is
  revoked once), and the claim as stated at the example workspace whose preparer fails on
  \<^verbatim>\<open>api\<close>: the key was issued and is never revoked.
\<close>

theorem revoke_once_witness:
  "series [generateRevisionID example_toolbelt_ok, issueTransientKey example_toolbelt_ok] pr_init =
     (None, example_issued)
   \<and> transientKey example_issued = Some ''key-for-temporary-build-abc123''
   \<and> fst (invokePreparer example_toolbelt_ok example_issued) = None
   \<and> filter is_revoke (calls (snd (preparePullRequest example_toolbelt_ok))) =
       [RevokeAPIKey (Some ''key-for-temporary-build-abc123'')]"
proof -
  have h: "series [generateRevisionID example_toolbelt_ok, issueTransientKey example_toolbelt_ok]
      pr_init = (None, example_issued)"
    by code_simp
  have k: "transientKey example_issued = Some ''key-for-temporary-build-abc123''"
    by code_simp
  have p: "fst (invokePreparer example_toolbelt_ok example_issued) = None"
    by code_simp
  show ?thesis
    using revoke_once_iff_preparation_succeeds [OF h] by (simp del: series.simps add: h k p)
qed

theorem revoke_skipped_counterexample:
  "series [generateRevisionID example_toolbelt, issueTransientKey example_toolbelt] pr_init =
     (None, example_issued)
   \<and> transientKey example_issued = Some ''key-for-temporary-build-abc123''
   \<and> fst (invokePreparer example_toolbelt example_issued) =
       Some (Error ''At least one preparer terminated unsuccessfully.'')
   \<and> fst (preparePullRequest example_toolbelt) =
       Inl (Error ''At least one preparer terminated unsuccessfully.'')
   \<and> calls (snd (preparePullRequest example_toolbelt)) =
       [IssueAPIKey ''temporary-build-abc123'',
        Prepare (example_opts\<lparr>contentRoot := Some [''ws'', ''api'']\<rparr>),
        Prepare (example_opts\<lparr>contentRoot := Some [''ws'', ''docs'']\<rparr>),
        Prepare (example_opts\<lparr>contentRoot := Some [''ws'', ''guide'']\<rparr>)]
   \<and> filter is_revoke (calls (snd (preparePullRequest example_toolbelt))) = []"
  by code_simp

text \<open>
  Claim C2. Every discovered content root is attempted, whatever the earlier
  preparations returned: the calls to the preparer are exactly the content roots of the
  walk, in order, each with the caller's options and its own root. When the walk has
  ended, \<^verbatim>\<open>allSuccessful\<close> is false if and only if some root's preparation passed an
  error or returned \<^verbatim>\<open>success = false\<close>, and the caller gets an error exactly then
  (from the end handler, so after every root was attempted).
\<close>

theorem recursivelyPrepare_attempts_every_root:
  "rp_calls (snd (recursivelyPrepare tb caller_opts)) =
     map (\<lambda>root. Prepare (caller_opts\<lparr>contentRoot := Some root\<rparr>)) (contentRoots tb)
   \<and> allSuccessful (snd (recursivelyPrepare tb caller_opts)) =
       (\<not> (\<exists>root \<in> set (contentRoots tb). unsuccessful tb caller_opts root))
   \<and> (\<exists>e. fst (recursivelyPrepare tb caller_opts) = Inl e) =
       (\<not> allSuccessful (snd (recursivelyPrepare tb caller_opts)))"
  by (auto simp add: recursivelyPrepare_def end_handler_fields end_handler_fst walked_def
      contentRoots_def run_files_calls run_files_allSuccessful rp_init_fields list_ex_iff)

theorem attempts_witness:
  "rp_calls (snd (recursivelyPrepare example_toolbelt example_opts)) =
     [Prepare (example_opts\<lparr>contentRoot := Some [''ws'', ''api'']\<rparr>),
      Prepare (example_opts\<lparr>contentRoot := Some [''ws'', ''docs'']\<rparr>),
      Prepare (example_opts\<lparr>contentRoot := Some [''ws'', ''guide'']\<rparr>)]
   \<and> unsuccessful example_toolbelt example_opts [''ws'', ''api'']
   \<and> allSuccessful (snd (recursivelyPrepare example_toolbelt example_opts)) = False
   \<and> (\<exists>e. fst (recursivelyPrepare example_toolbelt example_opts) = Inl e)"
  using recursivelyPrepare_attempts_every_root [of example_toolbelt example_opts]
  by (simp add: example_contentRoots unsuccessful_def example_outcome)



text \<open>
  Claim C4. The directories handler removes from the list of pending directories
  every directory whose name starts with a dot or is \<^verbatim>\<open>_build\<close> or \<^verbatim>\<open>_site\<close>
  (so \<^verbatim>\<open>.git\<close>, \<^verbatim>\<open>.hidden\<close>, \<^verbatim>\<open>_build\<close> and \<^verbatim>\<open>_site\<close>); no visited
  directory and no content root has such a name anywhere on its path below the workspace,
  marker file or not.
\<close>

theorem pruned_directories_never_visited:
  "directories_handler stats = filter (\<lambda>st. \<not> excluded (fst st)) stats
   \<and> (\<forall>(root, files) \<in> set (walk (workspacePath tb) (fs tb)).
         \<forall>name \<in> set (path_relative (workspacePath tb) root). \<not> excluded name)
   \<and> (\<forall>root \<in> set (contentRoots tb).
         \<forall>name \<in> set (path_relative (workspacePath tb) root). \<not> excluded name)
   \<and> excluded ''.git'' \<and> excluded ''.hidden'' \<and> excluded ''_build'' \<and> excluded ''_site''"
proof -
  have v: "\<not> excluded name"
    if "(root, files) \<in> set (walk (workspacePath tb) (fs tb))"
      and "name \<in> set (path_relative (workspacePath tb) root)" for root files name
  proof -
    from that(1) have "prefix (workspacePath tb) root" by (rule walk_prefix)
    then have "path_relative (workspacePath tb) root = drop (length (workspacePath tb)) root"
      by (auto elim!: prefixE simp add: path_relative_append)
    with that show ?thesis using walk_no_excluded by metis
  qed
  have r: "\<exists>files. (root, files) \<in> set (walk (workspacePath tb) (fs tb))"
    if "root \<in> set (contentRoots tb)" for root
    using that by (auto simp add: contentRoots_def roots_of_def)
  show ?thesis
    using v r by (fastforce simp add: directories_handler_filter excluded_def)
qed

theorem pruned_witness:
  "directories_handler
     [(''api'', ()), (''.git'', ()), (''docs'', ()), (''_build'', ()), (''_site'', ()), (''.hidden'', ())] =
     [(''api'', ()), (''docs'', ())]
   \<and> map fst (walk (workspacePath example_toolbelt) (fs example_toolbelt)) =
       [[''ws''], [''ws'', ''api''], [''ws'', ''docs''], [''ws'', ''docs'', ''img''], [''ws'', ''guide'']]
   \<and> contentRoots example_toolbelt = [[''ws'', ''api''], [''ws'', ''docs''], [''ws'', ''guide'']]"
  using pruned_directories_never_visited [of
      "[(''api'', ()), (''.git'', ()), (''docs'', ()), (''_build'', ()), (''_site'', ()), (''.hidden'', ())]"
      example_toolbelt]
  by (simp add: example_toolbelt_sel example_walk example_contentRoots excluded_def)

text \<open>
  Claim C5. With a mock SHA configured (a non-empty string, which is what the
  test \<^verbatim>\<open>if (toolbelt.config.mockGitSHA)\<close> takes as configured),
  \<^verbatim>\<open>generateRevisionID\<close> sets the revision ID to \<^verbatim>\<open>build-\<close> and the mock and makes no
  call, and the whole run never executes git. Otherwise it executes git and sets the
  revision ID to \<^verbatim>\<open>build-\<close> and the stdout without its final line feed (and the
  carriage return before it); when git fails, the whole pipeline fails with git's error,
  having made no other call.
\<close>

theorem generateRevisionID_mock_or_git:
  "(mockGitSHA tb = Some sha \<and> sha \<noteq> [] \<longrightarrow>
      generateRevisionID tb s = (None, s\<lparr>pr_revisionID := Some (''build-'' @ sha)\<rparr>)
      \<and> ExecGit \<notin> set (calls (snd (preparePullRequest tb))))
   \<and> (\<not> truthy (mockGitSHA tb) \<and> git tb = Inr out \<longrightarrow>
      fst (generateRevisionID tb s) = None
      \<and> pr_revisionID (snd (generateRevisionID tb s)) = Some (''build-'' @ strip_newline out)
      \<and> calls (snd (generateRevisionID tb s)) = calls s @ [ExecGit])
   \<and> (\<not> truthy (mockGitSHA tb) \<and> git tb = Inl err \<longrightarrow>
      fst (preparePullRequest tb) = Inl err \<and> calls (snd (preparePullRequest tb)) = [ExecGit])
   \<and> strip_newline (line @ [CHR 0x0A]) =
       (if line \<noteq> [] \<and> last line = CHR 0x0D then butlast line else line)
   \<and> (line = [] \<or> last line \<noteq> CHR 0x0A \<longrightarrow> strip_newline line = line)"
proof -
  have mock: "ExecGit \<notin> set (calls (snd (preparePullRequest tb)))"
    if "mockGitSHA tb = Some sha" "sha \<noteq> []"
  proof -
    have t: "truthy (mockGitSHA tb)" using that by (simp add: truthy_def)
    show ?thesis
      unfolding preparePullRequest_snd
      by (rule series_invariant) (auto simp add: tasks_def no_git t pr_init_def)
  qed
  have a: "generateRevisionID tb s = (None, s\<lparr>pr_revisionID := Some (''build-'' @ sha)\<rparr>)"
    if "mockGitSHA tb = Some sha" "sha \<noteq> []"
    using that by (simp add: generateRevisionID_def truthy_def)
  have b: "fst (generateRevisionID tb s) = None
      \<and> pr_revisionID (snd (generateRevisionID tb s)) = Some (''build-'' @ strip_newline out)
      \<and> calls (snd (generateRevisionID tb s)) = calls s @ [ExecGit]"
    if "\<not> truthy (mockGitSHA tb)" "git tb = Inr out"
    using that by (simp add: generateRevisionID_def Let_def)
  have c: "fst (preparePullRequest tb) = Inl err \<and> calls (snd (preparePullRequest tb)) = [ExecGit]"
    if "\<not> truthy (mockGitSHA tb)" "git tb = Inl err"
  proof -
    have "fst (generateRevisionID tb pr_init) = Some err"
      "calls (snd (generateRevisionID tb pr_init)) = [ExecGit]"
      using that by (simp_all add: generateRevisionID_def Let_def pr_init_def)
    then show ?thesis
      by (simp del: series.simps
          add: preparePullRequest_fst preparePullRequest_snd tasks_def series_Cons)
  qed
  have d: "strip_newline line = line" if "line = [] \<or> last line \<noteq> CHR 0x0A"
    using that by (auto simp add: strip_newline_def)
  show ?thesis using mock a b c d strip_newline_LF by blast
qed

theorem revision_witness:
  "generateRevisionID example_toolbelt pr_init =
     (None, pr_init\<lparr>pr_revisionID := Some ''build-abc123''\<rparr>)
   \<and> ExecGit \<notin> set (calls (snd (preparePullRequest example_toolbelt)))
   \<and> git (example_toolbelt\<lparr>mockGitSHA := None\<rparr>) = Inr (''0123456789'' @ [CHR 0x0A])
   \<and> pr_revisionID (snd (generateRevisionID (example_toolbelt\<lparr>mockGitSHA := None\<rparr>) pr_init)) =
       Some ''build-0123456789''
   \<and> calls (snd (generateRevisionID (example_toolbelt\<lparr>mockGitSHA := None\<rparr>) pr_init)) = [ExecGit]
   \<and> fst (preparePullRequest
         (example_toolbelt\<lparr>mockGitSHA := None, git := Inl (Error ''not a git repository'')\<rparr>)) =
       Inl (Error ''not a git repository'')
   \<and> calls (snd (preparePullRequest
         (example_toolbelt\<lparr>mockGitSHA := None, git := Inl (Error ''not a git repository'')\<rparr>))) =
       [ExecGit]
   \<and> strip_newline (''0123456789'' @ [CHR 0x0D, CHR 0x0A]) = ''0123456789''"
  using generateRevisionID_mock_or_git [of example_toolbelt "''abc123''" pr_init]
    generateRevisionID_mock_or_git [of "example_toolbelt\<lparr>mockGitSHA := None\<rparr>" _ pr_init
      "''0123456789'' @ [CHR 0x0A]"]
    generateRevisionID_mock_or_git [of
      "example_toolbelt\<lparr>mockGitSHA := None, git := Inl (Error ''not a git repository'')\<rparr>"
      _ _ _ "Error ''not a git repository''" "''0123456789'' @ [CHR 0x0D]"]
  by (simp add: example_toolbelt_sel truthy_def strip_newline_def pr_init_def)





text \<open>
  Claim C8. Without a staging presenter, when the first four tasks have succeeded
  and the walk found at least one content root (content was prepared): the presented URL
  map stays absent, \<^verbatim>\<open>commentOnGitHub\<close> returns success at once and changes nothing,
  the pipeline's result is \<^verbatim>\<open>{ didSomething: true }\<close>, and the last two tasks make no
  call to the presenter or to GitHub.
\<close>

theorem no_presenter_run_is_local:
  assumes "stagingPresenter tb = None"
    and "series [generateRevisionID tb, issueTransientKey tb, invokePreparer tb,
                 revokeTransientKey tb] pr_init = (None, s)"
    and "contentRoots tb \<noteq> []"
  shows "presentedURLMap (snd (getPresentedURLMap tb s)) = None
    \<and> commentOnGitHub tb (snd (getPresentedURLMap tb s)) = (None, snd (getPresentedURLMap tb s))
    \<and> fst (preparePullRequest tb) = Inr \<lparr>result_didSomething = True\<rparr>
    \<and> calls (snd (preparePullRequest tb)) = calls s"
proof -
  have "presentedURLMap (snd (series [generateRevisionID tb, issueTransientKey tb,
      invokePreparer tb, revokeTransientKey tb] pr_init)) = None"
    by (rule series_invariant) (auto simp add: presentedURLMap_kept pr_init_def)
  with assms(2) have absent: "presentedURLMap s = None" by simp
  let ?s5 = "s\<lparr>logged := logged s @
      [(Err, ''Unable to comment on GitHub: the staging URL is not configured.'')]\<rparr>"
  have g: "getPresentedURLMap tb s = (None, ?s5)"
    using assms(1) by (simp add: getPresentedURLMap_def)
  have c: "commentOnGitHub tb ?s5 = (None, ?s5)"
    using absent by (simp add: commentOnGitHub_def)
  have split: "tasks tb =
      [generateRevisionID tb, issueTransientKey tb, invokePreparer tb, revokeTransientKey tb] @
      [getPresentedURLMap tb, commentOnGitHub tb]"
    by (simp add: tasks_def)
  have "series (tasks tb) pr_init = series [getPresentedURLMap tb, commentOnGitHub tb] s"
    unfolding split by (subst series_append) (simp only: assms(2) prod.case option.case)
  also have "\<dots> = (None, ?s5)"
    using g c by (simp del: series.simps(2) add: series_Cons)
  finally have run: "series (tasks tb) pr_init = (None, ?s5)" .
  have did: "pr_didSomething s"
    using four_tasks_didSomething [OF assms(2)] assms(3) by simp
  show ?thesis
    using absent g c did by (simp add: preparePullRequest_def run)
qed

theorem local_run_witness:
  "stagingPresenter example_toolbelt_ok = None
   \<and> fst (series [generateRevisionID example_toolbelt_ok, issueTransientKey example_toolbelt_ok,
                 invokePreparer example_toolbelt_ok, revokeTransientKey example_toolbelt_ok]
            pr_init) = None
   \<and> contentRoots example_toolbelt_ok =
       [[''ws'', ''api''], [''ws'', ''docs''], [''ws'', ''guide'']]
   \<and> fst (preparePullRequest example_toolbelt_ok) = Inr \<lparr>result_didSomething = True\<rparr>
   \<and> calls (snd (preparePullRequest example_toolbelt_ok)) =
       [IssueAPIKey ''temporary-build-abc123'',
        Prepare (example_opts\<lparr>contentRoot := Some [''ws'', ''api'']\<rparr>),
        Prepare (example_opts\<lparr>contentRoot := Some [''ws'', ''docs'']\<rparr>),
        Prepare (example_opts\<lparr>contentRoot := Some [''ws'', ''guide'']\<rparr>),
        RevokeAPIKey (Some ''key-for-temporary-build-abc123'')]"
proof -
  let ?four = "series [generateRevisionID example_toolbelt_ok, issueTransientKey example_toolbelt_ok,
      invokePreparer example_toolbelt_ok, revokeTransientKey example_toolbelt_ok] pr_init"
  have n: "stagingPresenter example_toolbelt_ok = None"
    by (simp add: example_toolbelt_ok_def example_toolbelt_sel)
  have f: "fst ?four = None" by code_simp
  have d: "contentRoots example_toolbelt_ok =
      [[''ws'', ''api''], [''ws'', ''docs''], [''ws'', ''guide'']]"
    by code_simp
  then have d': "contentRoots example_toolbelt_ok \<noteq> []" by simp
  have c: "calls (snd ?four) =
       [IssueAPIKey ''temporary-build-abc123'',
        Prepare (example_opts\<lparr>contentRoot := Some [''ws'', ''api'']\<rparr>),
        Prepare (example_opts\<lparr>contentRoot := Some [''ws'', ''docs'']\<rparr>),
        Prepare (example_opts\<lparr>contentRoot := Some [''ws'', ''guide'']\<rparr>),
        RevokeAPIKey (Some ''key-for-temporary-build-abc123'')]"
    by code_simp
  have h: "?four = (None, snd ?four)" using f by (simp add: prod_eq_iff)
  show ?thesis
    using no_presenter_run_is_local [OF n h d'] by (simp del: series.simps add: n f d c)
qed

text \<open>
  Claim C9. When the preparation of at least one content root is unsuccessful,
  the caller's callback gets the error and \<^verbatim>\<open>true\<close>, and no aggregate result: the
  entries of the \<^verbatim>\<open>contentIDMap\<close> collected for the other roots are not handed over.
\<close>

theorem unsuccessful_root_gives_error_only:
  assumes "root \<in> set (contentRoots tb)" and "unsuccessful tb caller_opts root"
  shows "fst (recursivelyPrepare tb caller_opts) =
     Inl (Error ''At least one preparer terminated unsuccessfully.'', True)"
proof -
  have "\<not> allSuccessful (walked tb caller_opts)"
    using assms
    by (auto simp add: walked_def contentRoots_def run_files_allSuccessful rp_init_fields
        list_ex_iff)
  then show ?thesis by (simp add: recursivelyPrepare_def end_handler_fst)
qed

theorem error_only_witness:
  "[''ws'', ''api''] \<in> set (contentRoots example_toolbelt)
   \<and> unsuccessful example_toolbelt example_opts [''ws'', ''api'']
   \<and> fst (recursivelyPrepare example_toolbelt example_opts) =
       Inl (Error ''At least one preparer terminated unsuccessfully.'', True)
   \<and> contentIDMap (snd (recursivelyPrepare example_toolbelt example_opts)) =
       [([''docs''], Some ''https://example.org/docs/'')]"
proof -
  have r: "[''ws'', ''api''] \<in> set (contentRoots example_toolbelt)"
    by (simp add: example_contentRoots)
  have u: "unsuccessful example_toolbelt example_opts [''ws'', ''api'']"
    by (simp add: unsuccessful_def example_outcome)
  show ?thesis
    using unsuccessful_root_gives_error_only [OF r u]
    by (simp add: example_contentRoots unsuccessful_def example_outcome example_contentIDMap)
qed

text \<open>
  Claim C10. The caller's \<^verbatim>\<open>opts\<close> object is the one every preparation
  gets, with \<^verbatim>\<open>contentRoot\<close> set to the current root before the call; after the walk
  its \<^verbatim>\<open>contentRoot\<close> is the last prepared root (it is untouched when there was no
  content root), and its other fields are as the caller set them.
\<close>

theorem opts_contentRoot_is_last_root:
  "rp_opts (snd (recursivelyPrepare tb caller_opts)) =
     (if contentRoots tb = [] then caller_opts
      else caller_opts\<lparr>contentRoot := Some (last (contentRoots tb))\<rparr>)
   \<and> rp_calls (snd (recursivelyPrepare tb caller_opts)) =
       map (\<lambda>root. Prepare (caller_opts\<lparr>contentRoot := Some root\<rparr>)) (contentRoots tb)
   \<and> revisionID (rp_opts (snd (recursivelyPrepare tb caller_opts))) = revisionID caller_opts
   \<and> contentServiceURL (rp_opts (snd (recursivelyPrepare tb caller_opts))) =
       contentServiceURL caller_opts
   \<and> contentServiceAPIKey (rp_opts (snd (recursivelyPrepare tb caller_opts))) =
       contentServiceAPIKey caller_opts"
  by (simp add: recursivelyPrepare_def end_handler_fields walked_def contentRoots_def
      run_files_opts run_files_calls rp_init_fields)

theorem opts_witness:
  "rp_opts (snd (recursivelyPrepare example_toolbelt example_opts)) =
     example_opts\<lparr>contentRoot := Some [''ws'', ''guide'']\<rparr>
   \<and> contentRoot example_opts = None"
  using opts_contentRoot_is_last_root [of example_toolbelt example_opts]
  by (simp add: example_contentRoots example_opts_def)

end
